theory Spec2Isabelle
  imports Main
begin

chapter \<open>The history document and the completion provider\<close>

text \<open>
  A shallow embedding of \<^verbatim>\<open>src/client/datascience/history/completionProvider.ts\<close>: the
  class \<^verbatim>\<open>HistoryLine\<close>, the class \<^verbatim>\<open>HistoryDocument\<close> with its two mutations
  \<^verbatim>\<open>addLines\<close> and \<^verbatim>\<open>editLines\<close> and its conversions between offsets and positions,
  and the handlers of \<^verbatim>\<open>CompletionProvider\<close> for completion requests and their
  cancellation.
\<close>

section \<open>Strings, positions and ranges\<close>

text \<open>
  JavaScript numbers are modelled as unbounded integers, JavaScript strings as lists of
  characters; the line feed and the carriage return are the only line terminators a
  \<^typ>\<open>char\<close> can hold.
\<close>

definition LF :: char where
  "LF = CHR 0x0A"

definition CR :: char where
  "CR = CHR 0x0D"

text \<open>\<^verbatim>\<open>s.replace(/\r/g, '')\<close>\<close>

definition removeCR :: "string \<Rightarrow> string" where
  "removeCR s = filter (\<lambda>c. c \<noteq> CR) s"

text \<open>
  \<^verbatim>\<open>String.prototype.substr(start, length)\<close>: a negative start counts from the end, the
  length is clamped into the string, and nothing ever raises.
\<close>

definition js_substr :: "string \<Rightarrow> int \<Rightarrow> int \<Rightarrow> string" where
  "js_substr s start len =
     (let size = int (length s);
          intStart = (if start < 0 then max (size + start) 0 else start);
          resultLength = min (max len 0) (size - intStart)
      in if resultLength \<le> 0 then [] else take (nat resultLength) (drop (nat intStart) s))"

text \<open>\<^verbatim>\<open>String.prototype.substr(start)\<close>: the length is missing, so the rest of the string.\<close>

definition js_substr_from :: "string \<Rightarrow> int \<Rightarrow> string" where
  "js_substr_from s start =
     (let size = int (length s);
          intStart = (if start < 0 then max (size + start) 0 else start);
          resultLength = size - intStart
      in if resultLength \<le> 0 then [] else take (nat resultLength) (drop (nat intStart) s))"

text \<open>\<^verbatim>\<open>String.prototype.slice(start, end)\<close>\<close>

definition js_slice :: "string \<Rightarrow> int \<Rightarrow> int \<Rightarrow> string" where
  "js_slice s start fin =
     (let size = int (length s);
          from = (if start < 0 then max (size + start) 0 else min start size);
          to = (if fin < 0 then max (size + fin) 0 else min fin size)
      in take (nat (max (to - from) 0)) (drop (nat from) s))"

text \<open>
  What can go wrong: the two errors raised by the document's own code paths, the
  failures that reach the provider from outside (the start of the language server, and
  a completion request that the server rejects or that was cancelled), and the error of
  calling something that is no function.
\<close>

datatype error =
    IllegalArgument
  | MethodNotImplemented
  | StartupFailed
  | RequestFailed
  | RequestCancelled
  | TypeError

text \<open>
  \<^verbatim>\<open>Position\<close> and \<^verbatim>\<open>Range\<close> are the editor API's classes. The constructor of a position
  rejects a negative line or character, so a position holds two natural numbers and
  \<^verbatim>\<open>new Position(l, c)\<close> is the one place that can fail. A range orders its two ends.
\<close>

record Position =
  line :: nat
  character :: nat

definition Position_new :: "int \<Rightarrow> int \<Rightarrow> error + Position" where
  "Position_new l c =
     (if l < 0 then Inl IllegalArgument
      else if c < 0 then Inl IllegalArgument
      else Inr \<lparr>line = nat l, character = nat c\<rparr>)"

record Range =
  range_start :: Position
  range_end :: Position

definition isAfter :: "Position \<Rightarrow> Position \<Rightarrow> bool" where
  "isAfter p q = (if line p < line q then False
                  else if line q < line p then True
                  else character q < character p)"

definition Range_new :: "Position \<Rightarrow> Position \<Rightarrow> Range" where
  "Range_new s e = (if isAfter s e then \<lparr>range_start = e, range_end = s\<rparr>
                    else \<lparr>range_start = s, range_end = e\<rparr>)"

section \<open>HistoryLine\<close>

text \<open>
  A line holds its text, its index and its start offset. The two ranges are fixed by the
  constructor from the text and the index.
\<close>

record HistoryLine =
  line_text :: string
  lineNumber :: nat
  offset :: int

definition HistoryLine_new :: "string \<Rightarrow> nat \<Rightarrow> int \<Rightarrow> HistoryLine" where
  "HistoryLine_new c l off = \<lparr>line_text = c, lineNumber = l, offset = off\<rparr>"

definition line_range :: "HistoryLine \<Rightarrow> Range" where
  "line_range l = Range_new \<lparr>line = lineNumber l, character = 0\<rparr>
                       \<lparr>line = lineNumber l, character = length (line_text l)\<rparr>"

definition rangeIncludingLineBreak :: "HistoryLine \<Rightarrow> Range" where
  "rangeIncludingLineBreak l =
     Range_new (range_start (line_range l)) \<lparr>line = lineNumber l, character = length (line_text l) + 1\<rparr>"

section \<open>HistoryDocument\<close>

record HistoryDocument =
  uri :: string
  version :: int
  lines :: "HistoryLine list"
  contents :: string
  editOffset :: int
  firstEdit :: bool

definition HistoryDocument_new :: "string \<Rightarrow> HistoryDocument" where
  "HistoryDocument_new fileName =
     \<lparr>uri = fileName, version = 0, lines = [], contents = [], editOffset = 0,
      firstEdit = True\<rparr>"

text \<open>
  Modelled from the spec: \<^verbatim>\<open>splitLines\<close> is a string extension of the repository
  (\<^verbatim>\<open>common/extensions\<close>) whose code is not among the sources. The specification calls
  its result, with trimming and the removal of empty entries switched off as they are
  here, the line-break-delimited decomposition of the content: the pieces between the
  separators, so a text with n separators has n + 1 lines and the empty text has one.
\<close>

fun splitLines :: "string \<Rightarrow> string list" where
  "splitLines [] = [[]]"
| "splitLines (c # cs) =
     (if c = LF then [] # splitLines cs
      else (case splitLines cs of
              [] \<Rightarrow> [[c]]
            | l # ls \<Rightarrow> (c # l) # ls))"

definition createTextLine :: "string \<Rightarrow> nat \<Rightarrow> HistoryLine option \<Rightarrow> HistoryLine" where
  "createTextLine ln index prevLine =
     HistoryLine_new ln index
       (case prevLine of
          Some p \<Rightarrow> offset p + int (character (range_end (rangeIncludingLineBreak p)))
        | None \<Rightarrow> 0)"

text \<open>
  \<^verbatim>\<open>createLines\<close> maps over the split text with the index, threading the line built last
  through the variable \<^verbatim>\<open>prevLine\<close>.
\<close>

fun createLinesFrom :: "string list \<Rightarrow> nat \<Rightarrow> HistoryLine option \<Rightarrow> HistoryLine list" where
  "createLinesFrom [] i prevLine = []"
| "createLinesFrom (s # ss) i prevLine =
     (let nextLine = createTextLine s i prevLine
      in nextLine # createLinesFrom ss (i + 1) (Some nextLine))"

definition createLines :: "HistoryDocument \<Rightarrow> HistoryLine list" where
  "createLines d = createLinesFrom (splitLines (contents d)) 0 None"

text \<open>The loop of \<^verbatim>\<open>computePosition\<close>: move on while the next line starts at or before the offset.\<close>

function computeLine :: "HistoryLine list \<Rightarrow> int \<Rightarrow> nat \<Rightarrow> nat" where
  "computeLine ls off ln =
     (if ln + 1 < length ls \<and> offset (ls ! (ln + 1)) \<le> off
      then computeLine ls off (ln + 1)
      else ln)"
  by pat_completeness auto
termination
  by (relation "measure (\<lambda>(ls, off, ln). length ls - ln)") auto

declare computeLine.simps [simp del]

definition computePosition :: "HistoryDocument \<Rightarrow> int \<Rightarrow> error + Position" where
  "computePosition d off =
     (let ln = computeLine (lines d) off 0;
          ch = (if ln < length (lines d) then off - offset (lines d ! ln) else 0)
      in Position_new (int ln) ch)"

definition convertToOffset :: "HistoryDocument \<Rightarrow> Position \<Rightarrow> int" where
  "convertToOffset d pos =
     (if line pos < length (lines d) then offset (lines d ! line pos) + int (character pos)
      else int (length (contents d)))"

definition createSerializableRange :: "Position \<Rightarrow> Position \<Rightarrow> Range" where
  "createSerializableRange s e =
     \<lparr>range_start = \<lparr>line = line s, character = character s\<rparr>,
      range_end = \<lparr>line = line e, character = character e\<rparr>\<rparr>"

definition convertToDocumentPosition :: "HistoryDocument \<Rightarrow> int \<Rightarrow> int \<Rightarrow> error + Position" where
  "convertToDocumentPosition d ln ch =
     (case computePosition d (editOffset d) of
        Inl e \<Rightarrow> Inl e
      | Inr editLine \<Rightarrow> Position_new (ln - 1 + int (line editLine)) (ch - 1))"

definition getText :: "HistoryDocument \<Rightarrow> Range option \<Rightarrow> string" where
  "getText d rng =
     (case rng of
        None \<Rightarrow> contents d
      | Some r \<Rightarrow>
          (let startOffset = convertToOffset d (range_start r);
               endOffset = convertToOffset d (range_end r)
           in js_substr (contents d) startOffset (endOffset - startOffset)))"

definition offsetAt :: "HistoryDocument \<Rightarrow> Position \<Rightarrow> error + int" where
  "offsetAt d pos = Inl MethodNotImplemented"

subsection \<open>positionAt\<close>

text \<open>
  \<^verbatim>\<open>positionAt\<close> counts the line feeds of the text before the offset and takes the length
  of the first match of \<^verbatim>\<open>/(\n|^).*$/g\<close> there. Without the multiline flag the caret
  matches at index 0 only and the dollar at the end only, and the dot matches no line
  terminator. An attempt at one index therefore succeeds, with everything up to the end
  as its match, when the text from there is a line feed followed by no terminator, or
  when the index is 0 and the text holds no terminator.
\<close>

definition isLineTerminator :: "char \<Rightarrow> bool" where
  "isLineTerminator c = (c = LF \<or> c = CR)"

definition noTerminator :: "string \<Rightarrow> bool" where
  "noTerminator s = (filter isLineTerminator s = [])"

definition matchAt :: "bool \<Rightarrow> string \<Rightarrow> string option" where
  "matchAt atStart s =
     (case s of
        [] \<Rightarrow> if atStart then Some [] else None
      | c # cs \<Rightarrow>
          if c = LF \<and> noTerminator cs then Some s
          else if atStart \<and> noTerminator s then Some s
          else None)"

fun firstMatch :: "bool \<Rightarrow> string \<Rightarrow> string option" where
  "firstMatch atStart [] = matchAt atStart []"
| "firstMatch atStart (c # cs) =
     (case matchAt atStart (c # cs) of
        Some m \<Rightarrow> Some m
      | None \<Rightarrow> firstMatch False cs)"

definition positionAt :: "HistoryDocument \<Rightarrow> int \<Rightarrow> error + Position" where
  "positionAt d off =
     (let beforeOffset = js_slice (contents d) 0 off;
          ln = length (filter (\<lambda>c. c = LF) beforeOffset);
          preCharacters = firstMatch True beforeOffset
      in Position_new (int ln)
           (case preCharacters of Some m \<Rightarrow> int (length m) | None \<Rightarrow> 0))"

section \<open>The two mutations\<close>

record TextDocumentContentChangeEvent =
  ev_range :: Range
  ev_rangeOffset :: int
  ev_rangeLength :: int
  ev_text :: string

record IRange =
  startLineNumber :: int
  startColumn :: int
  endLineNumber :: int
  endColumn :: int

record IModelContentChange =
  m_range :: IRange
  m_rangeLength :: int
  m_text :: string

text \<open>
  Both mutations change the document in place, so the model returns the document they
  leave behind next to their result. An error leaves the fields as they were when it was
  raised: the version is already incremented then.
\<close>

definition addLines ::
  "HistoryDocument \<Rightarrow> string \<Rightarrow> HistoryDocument \<times> (error + TextDocumentContentChangeEvent list)" where
  "addLines d0 code =
     (let d = d0\<lparr>version := version d0 + 1\<rparr>;
          normalized = removeCR code;
          newCode = (if length (contents d) \<noteq> 0 then LF # normalized else normalized);
          fromOffset = (if firstEdit d then editOffset d else editOffset d - 1);
          before = js_substr (contents d) 0 fromOffset;
          after = js_substr_from (contents d) fromOffset
      in case computePosition d fromOffset of
           Inl e \<Rightarrow> (d, Inl e)
         | Inr fromPosition \<Rightarrow>
             (let d1 = d\<lparr>contents := before @ newCode @ after\<rparr>;
                  d2 = d1\<lparr>lines := createLines d1\<rparr>;
                  d3 = d2\<lparr>editOffset := editOffset d2 + int (length newCode)\<rparr>
              in (d3, Inr [\<lparr>ev_range = createSerializableRange fromPosition fromPosition,
                            ev_rangeOffset = fromOffset,
                            ev_rangeLength = 0,
                            ev_text = newCode\<rparr>])))"

definition editLines ::
  "HistoryDocument \<Rightarrow> IModelContentChange list
     \<Rightarrow> HistoryDocument \<times> (error + TextDocumentContentChangeEvent list)" where
  "editLines d0 editorChanges =
     (let d = d0\<lparr>version := version d0 + 1\<rparr>
      in case editorChanges of
           [] \<Rightarrow> (d, Inr [])
         | c # rest \<Rightarrow>
             (let normalized = removeCR (m_text c)
              in if firstEdit d then
                   (let d1 = d\<lparr>firstEdit := False\<rparr>;
                        fromOffset = editOffset d1;
                        newText = LF # normalized;
                        d2 = d1\<lparr>editOffset := editOffset d1 + 1\<rparr>;
                        d3 = d2\<lparr>contents := contents d2 @ newText\<rparr>;
                        d4 = d3\<lparr>lines := createLines d3\<rparr>
                    in (d4,
                        case computePosition d4 fromOffset of
                          Inl e \<Rightarrow> Inl e
                        | Inr p1 \<Rightarrow>
                            (case computePosition d4 (fromOffset + int (length newText)) of
                               Inl e \<Rightarrow> Inl e
                             | Inr p2 \<Rightarrow>
                                 Inr [\<lparr>ev_range = createSerializableRange p1 p2,
                                       ev_rangeOffset = fromOffset,
                                       ev_rangeLength = m_rangeLength c,
                                       ev_text = newText\<rparr>])))
                 else
                   (case computePosition d (editOffset d) of
                      Inl e \<Rightarrow> (d, Inl e)
                    | Inr editPos \<Rightarrow>
                        (case Position_new
                                (int (line editPos) + startLineNumber (m_range c) - 1)
                                (startColumn (m_range c) - 1) of
                           Inl e \<Rightarrow> (d, Inl e)
                         | Inr from \<Rightarrow>
                             (case Position_new
                                     (int (line editPos) + endLineNumber (m_range c) - 1)
                                     (endColumn (m_range c) - 1) of
                                Inl e \<Rightarrow> (d, Inl e)
                              | Inr to \<Rightarrow>
                                  (let fromOffset = convertToOffset d from;
                                       toOffset = convertToOffset d to;
                                       before = js_substr (contents d) 0 fromOffset;
                                       after = js_substr_from (contents d) toOffset;
                                       d1 = d\<lparr>contents := before @ normalized @ after\<rparr>;
                                       d2 = d1\<lparr>lines := createLines d1\<rparr>
                                   in (d2,
                                       Inr [\<lparr>ev_range = createSerializableRange from to,
                                             ev_rangeOffset = fromOffset,
                                             ev_rangeLength = toOffset - fromOffset,
                                             ev_text = normalized\<rparr>])))))))"

text \<open>
  A history of calls on one document: each call works on what the one before left,
  whatever it returned.
\<close>

datatype mutation = AddLines string | EditLines "IModelContentChange list"

fun applyMutation :: "HistoryDocument \<Rightarrow> mutation \<Rightarrow> HistoryDocument" where
  "applyMutation d (AddLines code) = fst (addLines d code)"
| "applyMutation d (EditLines editorChanges) = fst (editLines d editorChanges)"

definition applyMutations :: "HistoryDocument \<Rightarrow> mutation list \<Rightarrow> HistoryDocument" where
  "applyMutations d ms = foldl applyMutation d ms"

section \<open>CompletionProvider\<close>

subsection \<open>Completion results\<close>

text \<open>
  The language server answers a completion request with \<^verbatim>\<open>null\<close>, with a completion list
  (an object with the fields \<^verbatim>\<open>isIncomplete\<close> and \<^verbatim>\<open>items\<close>) or with a bare array of
  items. The items are opaque: \<^verbatim>\<open>convertToMonacoCompletionItem\<close> is a cast.
\<close>

datatype 'i lsp_result =
    Null
  | CompletionList (isIncomplete: bool) (items: "'i list")
  | CompletionItems (array: "'i list")

record 'i monaco_CompletionList =
  suggestions :: "'i list"
  incomplete :: bool

text \<open>\<^verbatim>\<open>result.hasOwnProperty('isIncomplete')\<close>: only a completion list has the field.\<close>

definition hasOwnProperty_isIncomplete :: "'i lsp_result \<Rightarrow> bool" where
  "hasOwnProperty_isIncomplete result =
     (case result of
        Null \<Rightarrow> False
      | CompletionList b xs \<Rightarrow> True
      | CompletionItems xs \<Rightarrow> False)"

definition convertToMonacoCompletionItem :: "'i \<Rightarrow> 'i" where
  "convertToMonacoCompletionItem item = item"

definition convertToMonacoCompletionList :: "'i lsp_result \<Rightarrow> 'i monaco_CompletionList" where
  "convertToMonacoCompletionList result =
     (if result \<noteq> Null then
        (if hasOwnProperty_isIncomplete result then
           \<lparr>suggestions = map convertToMonacoCompletionItem (items result),
            incomplete = isIncomplete result\<rparr>
         else
           \<lparr>suggestions = map convertToMonacoCompletionItem (array result),
            incomplete = False\<rparr>)
      else \<lparr>suggestions = [], incomplete = True\<rparr>)"

subsection \<open>Requests, cancellation and responses\<close>

text \<open>
  A cancellation source is the editor API's object: \<^verbatim>\<open>cancel\<close> marks its token as
  cancelled and \<^verbatim>\<open>dispose\<close> releases it; neither raises, and both may be repeated.
\<close>

record CancellationTokenSource =
  isCancellationRequested :: bool
  isDisposed :: bool

definition CancellationTokenSource_new :: CancellationTokenSource where
  "CancellationTokenSource_new = \<lparr>isCancellationRequested = False, isDisposed = False\<rparr>"

definition cancel :: "CancellationTokenSource \<Rightarrow> CancellationTokenSource" where
  "cancel s = s\<lparr>isCancellationRequested := True\<rparr>"

definition dispose :: "CancellationTokenSource \<Rightarrow> CancellationTokenSource" where
  "dispose s = s\<lparr>isDisposed := True\<rparr>"

record monaco_Position =
  pos_lineNumber :: int
  pos_column :: int

record 'c IProvideCompletionItemsRequest =
  req_position :: monaco_Position
  req_context :: 'c
  req_id :: string

record 'i ProvideCompletionItemsResponse =
  resp_list :: "'i monaco_CompletionList"
  resp_id :: string

text \<open>
  The provider: its document (created when the language server has started), the table
  of cancellation sources by request id, and the messages fired on its post emitter.

  The table is a plain object (\<^verbatim>\<open>{}\<close>) used as a dictionary. The field holds its own
  properties. An assignment to the key \<^verbatim>\<open>__proto__\<close> adds no property: it makes the
  assigned source the object that the table inherits from, and reading that key gives
  the source back; the field keeps it under that key.
\<close>

record 'i CompletionProvider =
  document :: "HistoryDocument option"
  sentOpenDocument :: bool
  cancellationSources :: "string \<rightharpoonup> CancellationTokenSource"
  posted :: "'i ProvideCompletionItemsResponse list"

definition CompletionProvider_new :: "'i CompletionProvider" where
  "CompletionProvider_new =
     \<lparr>document = None, sentOpenDocument = False, cancellationSources = Map.empty,
      posted = []\<rparr>"

definition postResponse ::
  "'i CompletionProvider \<Rightarrow> 'i ProvideCompletionItemsResponse \<Rightarrow> 'i CompletionProvider" where
  "postResponse p payload = p\<lparr>posted := posted p @ [payload]\<rparr>"

text \<open>
  Reading \<^verbatim>\<open>this.cancellationSources[request.id]\<close> finds an own property first and
  then what the table inherits. A table inherits the properties of \<^verbatim>\<open>Object.prototype\<close>,
  named below: each of them is a function or an object, so it passes the test
  \<^verbatim>\<open>if (cancelSource)\<close>, and none has a member \<^verbatim>\<open>cancel\<close>, so the call
  \<^verbatim>\<open>cancelSource.cancel()\<close> raises before anything is changed.
\<close>

definition Object_prototype_names :: "string list" where
  "Object_prototype_names =
     [''constructor'', ''__defineGetter__'', ''__defineSetter__'', ''hasOwnProperty'',
      ''__lookupGetter__'', ''__lookupSetter__'', ''isPrototypeOf'', ''propertyIsEnumerable'',
      ''toString'', ''valueOf'', ''__proto__'', ''toLocaleString'']"

text \<open>
  Once a request with the id \<^verbatim>\<open>__proto__\<close> has made a cancellation source the object
  that the table inherits from, a key that is no own property is looked up in that
  source. What is found there, and what \<^verbatim>\<open>cancel\<close> and \<^verbatim>\<open>dispose\<close> do to it, is
  decided by the editor API's class, which is not part of the sources: the handler takes
  it as its argument \<open>viaSource\<close>.

  The handler returns the provider it leaves behind next to its result.
\<close>

definition handleCompletionItemsCancel ::
  "(CancellationTokenSource \<Rightarrow> string \<Rightarrow> 'i CompletionProvider
      \<Rightarrow> 'i CompletionProvider \<times> (error + unit))
     \<Rightarrow> 'i CompletionProvider \<Rightarrow> string \<Rightarrow> 'i CompletionProvider \<times> (error + unit)" where
  "handleCompletionItemsCancel viaSource p request_id =
     (case cancellationSources p request_id of
        Some cancelSource \<Rightarrow>
          (p\<lparr>cancellationSources :=
               (cancellationSources p)(request_id \<mapsto> dispose (cancel cancelSource))\<rparr>,
           Inr ())
      | None \<Rightarrow>
          (case cancellationSources p ''__proto__'' of
             Some inheritedSource \<Rightarrow> viaSource inheritedSource request_id p
           | None \<Rightarrow>
               if request_id \<in> set Object_prototype_names then (p, Inl TypeError)
               else (p, Inr ())))"

text \<open>
  \<^verbatim>\<open>provideCompletionItems\<close> is asynchronous: it awaits the language client and then the
  server's answer. What the two awaited promises settle to comes from outside, so the
  model takes it as arguments: \<open>languageClient\<close> is the failure of the start-up or
  whether a client is there, and \<open>sendRequest\<close> gives the server's answer, or its
  failure, to a request at a document position.
\<close>

definition provideCompletionItems ::
  "'i CompletionProvider \<Rightarrow> error + bool \<Rightarrow> (Position \<Rightarrow> 'c \<Rightarrow> error + 'i lsp_result)
     \<Rightarrow> monaco_Position \<Rightarrow> 'c \<Rightarrow> error + 'i monaco_CompletionList" where
  "provideCompletionItems p languageClient sendRequest position context =
     (case languageClient of
        Inl e \<Rightarrow> Inl e
      | Inr client \<Rightarrow>
          (case document p of
             None \<Rightarrow> Inr \<lparr>suggestions = [], incomplete = True\<rparr>
           | Some d \<Rightarrow>
               if client then
                 (case convertToDocumentPosition d (pos_lineNumber position) (pos_column position) of
                    Inl e \<Rightarrow> Inl e
                  | Inr docPos \<Rightarrow>
                      (case sendRequest docPos context of
                         Inl e \<Rightarrow> Inl e
                       | Inr result \<Rightarrow> Inr (convertToMonacoCompletionList result)))
               else Inr \<lparr>suggestions = [], incomplete = True\<rparr>))"

text \<open>
  \<^verbatim>\<open>handleCompletionItemsRequest\<close> in its two parts: what it does at once (a fresh
  cancellation source registered under the request's id), and the continuation that runs
  when the promise of \<^verbatim>\<open>provideCompletionItems\<close> has settled (\<^verbatim>\<open>then\<close> posts the list,
  \<^verbatim>\<open>catch\<close> posts the empty incomplete one). Other messages may be handled in between.
\<close>

definition handleCompletionItemsRequest_register ::
  "'i CompletionProvider \<Rightarrow> 'c IProvideCompletionItemsRequest \<Rightarrow> 'i CompletionProvider" where
  "handleCompletionItemsRequest_register p request =
     p\<lparr>cancellationSources :=
          (cancellationSources p)(req_id request \<mapsto> CancellationTokenSource_new)\<rparr>"

definition handleCompletionItemsRequest_settled ::
  "'i CompletionProvider \<Rightarrow> 'c IProvideCompletionItemsRequest
     \<Rightarrow> error + 'i monaco_CompletionList \<Rightarrow> 'i CompletionProvider" where
  "handleCompletionItemsRequest_settled p request outcome =
     (case outcome of
        Inr completions \<Rightarrow> postResponse p \<lparr>resp_list = completions, resp_id = req_id request\<rparr>
      | Inl e \<Rightarrow>
          postResponse p
            \<lparr>resp_list = \<lparr>suggestions = [], incomplete = True\<rparr>, resp_id = req_id request\<rparr>)"

definition handleCompletionItemsRequest ::
  "'i CompletionProvider \<Rightarrow> 'c IProvideCompletionItemsRequest \<Rightarrow> error + bool
     \<Rightarrow> (Position \<Rightarrow> 'c \<Rightarrow> error + 'i lsp_result) \<Rightarrow> 'i CompletionProvider" where
  "handleCompletionItemsRequest p request languageClient sendRequest =
     (let p1 = handleCompletionItemsRequest_register p request
      in handleCompletionItemsRequest_settled p1 request
           (provideCompletionItems p1 languageClient sendRequest
              (req_position request) (req_context request)))"

section \<open>Notions used to state the properties\<close>

text \<open>The text that a list of lines stands for: the lines with one line feed between neighbours.\<close>

fun joinLines :: "string list \<Rightarrow> string" where
  "joinLines [] = []"
| "joinLines [l] = l"
| "joinLines (l # l' # ls) = l @ LF # joinLines (l' # ls)"

text \<open>
  A list of lines is chained from an offset when the first line starts there and every
  other line starts one past the end of the line before it.
\<close>

fun chained :: "int \<Rightarrow> HistoryLine list \<Rightarrow> bool" where
  "chained off [] = True"
| "chained off (l # ls) =
     (offset l = off \<and> chained (off + int (length (line_text l)) + 1) ls)"

definition nextOffset :: "HistoryLine option \<Rightarrow> int" where
  "nextOffset prevLine =
     (case prevLine of
        Some p \<Rightarrow> offset p + int (length (line_text p)) + 1
      | None \<Rightarrow> 0)"

text \<open>
  The line index is either still the empty one of a fresh document, whose text is empty,
  or the one that \<^verbatim>\<open>createLines\<close> builds from the current text.
\<close>

definition docInvariant :: "HistoryDocument \<Rightarrow> bool" where
  "docInvariant d = ((lines d = [] \<and> contents d = []) \<or> lines d = createLines d)"

text \<open>A well-formed change of the editor: one-based line and column numbers.\<close>

definition change :: "int \<Rightarrow> int \<Rightarrow> int \<Rightarrow> int \<Rightarrow> int \<Rightarrow> string \<Rightarrow> IModelContentChange" where
  "change sl sc el ec len t =
     \<lparr>m_range = \<lparr>startLineNumber = sl, startColumn = sc, endLineNumber = el, endColumn = ec\<rparr>,
      m_rangeLength = len, m_text = t\<rparr>"

text \<open>Two sample documents: two appends, and an append followed by a first edit.\<close>

definition document_a_b :: HistoryDocument where
  "document_a_b =
     fst (addLines (fst (addLines (HistoryDocument_new ''History.py'') ''a'')) ''b'')"

definition document_edited :: HistoryDocument where
  "document_edited =
     fst (editLines (fst (addLines (HistoryDocument_new ''History.py'') ''a''))
            [change 1 1 1 1 0 ''x''])"

text \<open>
  A sample for the argument \<open>viaSource\<close>: a class whose members cannot be cancelled.
\<close>

definition viaSource_raises ::
  "CancellationTokenSource \<Rightarrow> string \<Rightarrow> 'i CompletionProvider
     \<Rightarrow> 'i CompletionProvider \<times> (error + unit)" where
  "viaSource_raises inheritedSource request_id p = (p, Inl TypeError)"

text \<open>A sample request, and a provider whose document is the edited sample.\<close>

definition request_1 :: "unit IProvideCompletionItemsRequest" where
  "request_1 =
     \<lparr>req_position = \<lparr>pos_lineNumber = 1, pos_column = 2\<rparr>, req_context = (), req_id = ''1''\<rparr>"

definition provider_with_document :: "string CompletionProvider" where
  "provider_with_document = CompletionProvider_new\<lparr>document := Some document_edited\<rparr>"

section \<open>Lines and offsets\<close>

lemma splitLines_nonempty: "splitLines s \<noteq> []"
  by (induction s) (auto split: list.splits)

lemma joinLines_Cons: "ls \<noteq> [] \<Longrightarrow> joinLines (l # ls) = l @ LF # joinLines ls"
  by (cases ls) auto

lemma joinLines_splitLines: "joinLines (splitLines s) = s"
proof (induction s)
  case Nil
  show ?case by simp
next
  case (Cons c cs)
  show ?case
  proof (cases "c = LF")
    case True
    with Cons show ?thesis by (simp add: joinLines_Cons splitLines_nonempty)
  next
    case False
    obtain l ls where sp: "splitLines cs = l # ls"
      using splitLines_nonempty [of cs] by (cases "splitLines cs") auto
    from Cons sp have "cs = joinLines (l # ls)" by simp
    moreover have "joinLines ((c # l) # ls) = c # joinLines (l # ls)"
      by (cases ls) auto
    ultimately show ?thesis using False sp by simp
  qed
qed

lemma splitLines_no_LF: "l \<in> set (splitLines s) \<Longrightarrow> LF \<notin> set l"
proof (induction s arbitrary: l)
  case Nil
  then show ?case by simp
next
  case (Cons c cs)
  then show ?case
    by (auto split: if_splits list.splits)
qed

lemma rangeIncludingLineBreak_end:
  "character (range_end (rangeIncludingLineBreak l)) = length (line_text l) + 1"
  by (simp add: rangeIncludingLineBreak_def line_range_def Range_new_def isAfter_def)

lemma createTextLine_fields:
  "line_text (createTextLine s i p) = s"
  "lineNumber (createTextLine s i p) = i"
  "offset (createTextLine s i p) = nextOffset p"
  by (simp_all add: createTextLine_def HistoryLine_new_def nextOffset_def
        rangeIncludingLineBreak_end split: option.splits)

lemma createLinesFrom_text: "map line_text (createLinesFrom ss i p) = ss"
  by (induction ss arbitrary: i p) (simp_all add: Let_def createTextLine_fields)

lemma createLinesFrom_length: "length (createLinesFrom ss i p) = length ss"
  by (induction ss arbitrary: i p) (simp_all add: Let_def)

lemma createLinesFrom_lineNumber:
  "k < length ss \<Longrightarrow> lineNumber (createLinesFrom ss i p ! k) = i + k"
proof (induction ss arbitrary: i p k)
  case Nil
  then show ?case by simp
next
  case (Cons s ss)
  then show ?case
    by (cases k) (simp_all add: Let_def createTextLine_fields)
qed

lemma createLinesFrom_chained: "chained (nextOffset p) (createLinesFrom ss i p)"
proof (induction ss arbitrary: i p)
  case Nil
  show ?case by simp
next
  case (Cons s ss)
  have "chained (nextOffset (Some (createTextLine s i p)))
          (createLinesFrom ss (i + 1) (Some (createTextLine s i p)))"
    by (rule Cons.IH)
  then show ?case
    by (simp add: Let_def createTextLine_fields nextOffset_def)
qed

lemma chained_nth:
  "chained off ls \<Longrightarrow> Suc k < length ls \<Longrightarrow>
     offset (ls ! Suc k) = offset (ls ! k) + int (length (line_text (ls ! k))) + 1"
proof (induction ls arbitrary: off k)
  case Nil
  then show ?case by simp
next
  case (Cons l ls)
  show ?case
  proof (cases k)
    case 0
    with Cons.prems show ?thesis by (cases ls) auto
  next
    case (Suc j)
    with Cons.prems Cons.IH [of "off + int (length (line_text l)) + 1" j]
    show ?thesis by simp
  qed
qed

lemma chained_hd: "chained off ls \<Longrightarrow> ls \<noteq> [] \<Longrightarrow> offset (ls ! 0) = off"
  by (cases ls) auto

lemma chained_mono:
  "chained off ls \<Longrightarrow> j \<le> k \<Longrightarrow> k < length ls \<Longrightarrow> offset (ls ! j) \<le> offset (ls ! k)"
proof (induction k)
  case 0
  then show ?case by simp
next
  case (Suc k)
  show ?case
  proof (cases "j = Suc k")
    case True
    then show ?thesis by simp
  next
    case False
    with Suc.prems have "j \<le> k" "k < length ls" by simp_all
    with Suc have "offset (ls ! j) \<le> offset (ls ! k)" by simp
    moreover from Suc.prems chained_nth [of off ls k]
    have "offset (ls ! k) \<le> offset (ls ! Suc k)" by simp
    ultimately show ?thesis by simp
  qed
qed

subsection \<open>The loop of computePosition\<close>

lemma computeLine_empty: "computeLine [] off 0 = 0"
  by (subst computeLine.simps) simp

lemma computeLine_single: "computeLine [l] off 0 = 0"
  by (subst computeLine.simps) simp

lemma computeLine_bound:
  "ln < length ls \<Longrightarrow> offset (ls ! ln) \<le> off \<Longrightarrow>
     computeLine ls off ln < length ls \<and> offset (ls ! computeLine ls off ln) \<le> off"
proof (induction ls off ln rule: computeLine.induct)
  case (1 ls off ln)
  show ?case
  proof (cases "ln + 1 < length ls \<and> offset (ls ! (ln + 1)) \<le> off")
    case True
    with "1.IH" have "computeLine ls off (ln + 1) < length ls \<and>
        offset (ls ! computeLine ls off (ln + 1)) \<le> off" by simp
    with True show ?thesis by (subst (1 2) computeLine.simps) simp
  next
    case False
    with "1.prems" show ?thesis by (subst (1 2) computeLine.simps) auto
  qed
qed

lemma computeLine_exact:
  "chained off0 ls \<Longrightarrow> ln \<le> k \<Longrightarrow> k < length ls \<Longrightarrow> offset (ls ! k) \<le> off \<Longrightarrow>
     (Suc k < length ls \<Longrightarrow> off < offset (ls ! Suc k)) \<Longrightarrow> computeLine ls off ln = k"
proof (induction ls off ln rule: computeLine.induct)
  case (1 ls off ln)
  show ?case
  proof (cases "ln = k")
    case True
    with "1.prems" show ?thesis by (subst computeLine.simps) auto
  next
    case False
    with "1.prems" have lt: "ln + 1 \<le> k" by simp
    with "1.prems" chained_mono [of off0 ls "ln + 1" k]
    have "offset (ls ! (ln + 1)) \<le> off" by simp
    moreover from lt "1.prems" have "ln + 1 < length ls" by simp
    ultimately have c: "ln + 1 < length ls \<and> offset (ls ! (ln + 1)) \<le> off" by simp
    with "1.IH" "1.prems" lt have "computeLine ls off (ln + 1) = k" by simp
    with c show ?thesis by (subst computeLine.simps) simp
  qed
qed

section \<open>Appending after a first append\<close>

text \<open>
  C6. A first append of \<open>a\<close> to a new document leaves the content \<open>a\<close>. Appending \<open>b\<close>
  then leaves the content \<open>a\<close>, line feed, \<open>b\<close>, and returns exactly one change record:
  its range is empty (both ends at line 0, character 1), its length is 0, its offset is
  the length of \<open>a\<close>, and its text is the line feed followed by \<open>b\<close>.
\<close>

theorem subsequent_append_prefixed:
  "contents (fst (addLines (HistoryDocument_new fileName) ''a'')) = ''a'' \<and>
   addLines (fst (addLines (HistoryDocument_new fileName) ''a'')) ''b'' =
     (\<lparr>uri = fileName, version = 2,
       lines = [\<lparr>line_text = ''a'', lineNumber = 0, offset = 0\<rparr>,
                \<lparr>line_text = ''b'', lineNumber = 1, offset = 2\<rparr>],
       contents = ''a'' @ [LF] @ ''b'', editOffset = 3, firstEdit = True\<rparr>,
      Inr [\<lparr>ev_range = \<lparr>range_start = \<lparr>line = 0, character = 1\<rparr>,
                        range_end = \<lparr>line = 0, character = 1\<rparr>\<rparr>,
            ev_rangeOffset = int (length ''a''),
            ev_rangeLength = 0,
            ev_text = [LF] @ ''b''\<rparr>])"
  by (simp add: addLines_def HistoryDocument_new_def removeCR_def CR_def LF_def
      computePosition_def computeLine_empty computeLine_single Position_new_def
      js_substr_def js_substr_from_def createLines_def createTextLine_def
      HistoryLine_new_def rangeIncludingLineBreak_def line_range_def Range_new_def
      isAfter_def createSerializableRange_def Let_def)

section \<open>The line index after any history of calls\<close>

lemma docInvariant_new: "docInvariant (HistoryDocument_new fileName)"
  by (simp add: docInvariant_def HistoryDocument_new_def)

lemma docInvariant_addLines: "docInvariant d \<Longrightarrow> docInvariant (fst (addLines d code))"
  by (auto simp: docInvariant_def addLines_def Let_def createLines_def split: sum.splits)

lemma docInvariant_editLines:
  "docInvariant d \<Longrightarrow> docInvariant (fst (editLines d editorChanges))"
  by (auto simp: docInvariant_def editLines_def Let_def createLines_def
      split: sum.splits list.splits)

lemma docInvariant_applyMutation: "docInvariant d \<Longrightarrow> docInvariant (applyMutation d m)"
  by (cases m) (simp_all add: docInvariant_addLines docInvariant_editLines)

lemma docInvariant_applyMutations: "docInvariant d \<Longrightarrow> docInvariant (applyMutations d ms)"
  unfolding applyMutations_def
  by (induction ms arbitrary: d) (simp_all add: docInvariant_applyMutation)

lemma docInvariant_reachable:
  "docInvariant (applyMutations (HistoryDocument_new fileName) ms)"
  by (simp add: docInvariant_applyMutations docInvariant_new)

lemma docInvariant_chained: "docInvariant d \<Longrightarrow> chained 0 (lines d)"
  using createLinesFrom_chained [of None "splitLines (contents d)" 0]
  by (auto simp: docInvariant_def createLines_def nextOffset_def)

lemma docInvariant_join: "docInvariant d \<Longrightarrow> joinLines (map line_text (lines d)) = contents d"
  by (auto simp: docInvariant_def createLines_def createLinesFrom_text joinLines_splitLines)

lemma docInvariant_no_LF: "docInvariant d \<Longrightarrow> l \<in> set (lines d) \<Longrightarrow> LF \<notin> set (line_text l)"
proof -
  assume inv: "docInvariant d" and l: "l \<in> set (lines d)"
  then have "lines d = createLines d" by (auto simp: docInvariant_def)
  then have "map line_text (lines d) = splitLines (contents d)"
    by (simp add: createLines_def createLinesFrom_text)
  with l have "line_text l \<in> set (splitLines (contents d))"
    by (metis image_eqI set_map)
  then show ?thesis by (rule splitLines_no_LF)
qed

lemma docInvariant_lineNumber:
  "docInvariant d \<Longrightarrow> k < length (lines d) \<Longrightarrow> lineNumber (lines d ! k) = k"
proof -
  assume inv: "docInvariant d" and k: "k < length (lines d)"
  then have eq: "lines d = createLinesFrom (splitLines (contents d)) 0 None"
    by (auto simp: docInvariant_def createLines_def)
  with k have "k < length (splitLines (contents d))"
    by (simp add: createLinesFrom_length)
  then have "lineNumber (createLinesFrom (splitLines (contents d)) 0 None ! k) = 0 + k"
    by (rule createLinesFrom_lineNumber)
  with eq show ?thesis by simp
qed

lemma docInvariant_empty: "docInvariant d \<Longrightarrow> lines d = [] \<Longrightarrow> contents d = []"
  by (auto simp: docInvariant_def createLines_def dest: arg_cong [where f = length]
      simp: createLinesFrom_length splitLines_nonempty)

subsection \<open>The sample documents, evaluated\<close>

lemma document_a_b_eq:
  "document_a_b =
     \<lparr>uri = ''History.py'', version = 2,
      lines = [\<lparr>line_text = ''a'', lineNumber = 0, offset = 0\<rparr>,
               \<lparr>line_text = ''b'', lineNumber = 1, offset = 2\<rparr>],
      contents = ''a'' @ [LF] @ ''b'', editOffset = 3, firstEdit = True\<rparr>"
  by (simp add: document_a_b_def addLines_def HistoryDocument_new_def removeCR_def CR_def LF_def
      computePosition_def computeLine_empty computeLine_single Position_new_def
      js_substr_def js_substr_from_def createLines_def createTextLine_def
      HistoryLine_new_def rangeIncludingLineBreak_def line_range_def Range_new_def
      isAfter_def createSerializableRange_def Let_def)

lemma document_a_b_history:
  "document_a_b =
     applyMutations (HistoryDocument_new ''History.py'') [AddLines ''a'', AddLines ''b'']"
  by (simp add: document_a_b_def applyMutations_def)

lemma document_edited_eq:
  "document_edited =
     \<lparr>uri = ''History.py'', version = 2,
      lines = [\<lparr>line_text = ''a'', lineNumber = 0, offset = 0\<rparr>,
               \<lparr>line_text = ''x'', lineNumber = 1, offset = 2\<rparr>],
      contents = ''a'' @ [LF] @ ''x'', editOffset = 2, firstEdit = False\<rparr>"
  by (simp add: document_edited_def addLines_def editLines_def change_def
      HistoryDocument_new_def removeCR_def CR_def LF_def
      computePosition_def computeLine_empty computeLine_single Position_new_def
      js_substr_def js_substr_from_def createLines_def createTextLine_def
      HistoryLine_new_def rangeIncludingLineBreak_def line_range_def Range_new_def
      isAfter_def createSerializableRange_def Let_def)

section \<open>Offsets and positions\<close>

lemma offset_to_position_to_offset:
  assumes inv: "docInvariant d" and lo: "0 \<le> off" and hi: "off \<le> int (length (contents d))"
  shows "\<exists>p. computePosition d off = Inr p \<and> convertToOffset d p = off"
proof (cases "lines d = []")
  case True
  with inv have "contents d = []" by (rule docInvariant_empty)
  with lo hi have "off = 0" by simp
  with True \<open>contents d = []\<close> show ?thesis
    by (simp add: computePosition_def computeLine_empty Position_new_def convertToOffset_def)
next
  case False
  from inv have ch: "chained 0 (lines d)" by (rule docInvariant_chained)
  from ch False have "offset (lines d ! 0) = 0" by (rule chained_hd)
  with lo False have "0 < length (lines d)" "offset (lines d ! 0) \<le> off" by simp_all
  then have b: "computeLine (lines d) off 0 < length (lines d) \<and>
      offset (lines d ! computeLine (lines d) off 0) \<le> off"
    by (rule computeLine_bound)
  then show ?thesis
    by (simp add: computePosition_def Position_new_def convertToOffset_def Let_def)
qed

lemma position_to_offset_to_position:
  assumes inv: "docInvariant d" and l: "line p < length (lines d)"
    and c: "character p \<le> length (line_text (lines d ! line p))"
  shows "computePosition d (convertToOffset d p) = Inr p"
proof -
  let ?ls = "lines d"
  let ?off = "offset (?ls ! line p) + int (character p)"
  from inv have ch: "chained 0 ?ls" by (rule docInvariant_chained)
  have next_line: "?off < offset (?ls ! Suc (line p))" if "Suc (line p) < length ?ls"
    using chained_nth [OF ch that] c by simp
  have "computeLine ?ls ?off 0 = line p"
    by (rule computeLine_exact [OF ch]) (use l next_line in simp_all)
  with l show ?thesis
    by (simp add: computePosition_def convertToOffset_def Position_new_def Let_def)
qed

text \<open>
  C2. The public \<^verbatim>\<open>positionAt\<close> and \<^verbatim>\<open>offsetAt\<close> are no inverses of each other. In the
  document with the lines \<open>a\<close> and \<open>b\<close>, offset 2 is the start of the second line;
  \<^verbatim>\<open>positionAt\<close> answers line 1, character 1, which \<^verbatim>\<open>convertToOffset\<close> takes to
  offset 3, and \<^verbatim>\<open>offsetAt\<close> raises for every position.
\<close>

theorem public_conversions_counterexample:
  "positionAt document_a_b 2 = Inr \<lparr>line = 1, character = 1\<rparr> \<and>
   convertToOffset document_a_b \<lparr>line = 1, character = 1\<rparr> = 3 \<and>
   offsetAt document_a_b \<lparr>line = 1, character = 1\<rparr> = Inl MethodNotImplemented"
  by (simp add: document_a_b_eq positionAt_def js_slice_def LF_def CR_def matchAt_def
      noTerminator_def isLineTerminator_def Position_new_def convertToOffset_def offsetAt_def)

text \<open>
  C2, as amended. The conversions that the document itself uses are mutual inverses
  after any history of \<^verbatim>\<open>addLines\<close> and \<^verbatim>\<open>editLines\<close> calls on a new document: for an
  offset between 0 and the length of the content, \<^verbatim>\<open>computePosition\<close> succeeds and
  \<^verbatim>\<open>convertToOffset\<close> takes its position back to the offset; for a position on a line of
  the document whose character is not past the end of that line, \<^verbatim>\<open>convertToOffset\<close>
  followed by \<^verbatim>\<open>computePosition\<close> gives the position back. \<^verbatim>\<open>offsetAt\<close> is not
  implemented and raises.
\<close>

theorem internal_conversions_inverse:
  assumes "d = applyMutations (HistoryDocument_new fileName) ms"
  shows "(0 \<le> off \<and> off \<le> int (length (contents d)) \<longrightarrow>
            (\<exists>p. computePosition d off = Inr p \<and> convertToOffset d p = off)) \<and>
         (line p < length (lines d) \<and> character p \<le> length (line_text (lines d ! line p)) \<longrightarrow>
            computePosition d (convertToOffset d p) = Inr p) \<and>
         offsetAt d p = Inl MethodNotImplemented"
  using assms offset_to_position_to_offset [of d off] position_to_offset_to_position [of d p]
    docInvariant_reachable [of fileName ms]
  by (simp add: offsetAt_def)

theorem internal_conversions_inverse_witness:
  "document_a_b =
     applyMutations (HistoryDocument_new ''History.py'') [AddLines ''a'', AddLines ''b''] \<and>
   0 \<le> (2::int) \<and> 2 \<le> int (length (contents document_a_b)) \<and>
   (\<exists>p. computePosition document_a_b 2 = Inr p \<and> convertToOffset document_a_b p = 2) \<and>
   line \<lparr>line = 1, character = 0\<rparr> < length (lines document_a_b) \<and>
   character \<lparr>line = 1, character = 0\<rparr>
     \<le> length (line_text (lines document_a_b ! line \<lparr>line = 1, character = 0\<rparr>)) \<and>
   computePosition document_a_b (convertToOffset document_a_b \<lparr>line = 1, character = 0\<rparr>)
     = Inr \<lparr>line = 1, character = 0\<rparr>"
proof -
  note h = document_a_b_history
  note t = internal_conversions_inverse [OF h, of 2 "\<lparr>line = 1, character = 0\<rparr>"]
  have len: "int (length (contents document_a_b)) = 3"
    and ls: "length (lines document_a_b) = 2"
    and btext: "line_text (lines document_a_b ! 1) = ''b''"
    by (simp_all add: document_a_b_eq)
  from t len have a: "\<exists>p. computePosition document_a_b 2 = Inr p \<and>
      convertToOffset document_a_b p = 2"
    by simp
  from t ls btext
  have b: "computePosition document_a_b
      (convertToOffset document_a_b \<lparr>line = 1, character = 0\<rparr>)
        = Inr \<lparr>line = 1, character = 0\<rparr>"
    by simp
  show ?thesis
    by (intro conjI h a b) (simp_all add: len ls btext)
qed

section \<open>The line invariant\<close>

lemma chained_lower: "chained off ls \<Longrightarrow> k < length ls \<Longrightarrow> off \<le> offset (ls ! k)"
  using chained_mono [of off ls 0 k] chained_hd [of off ls] by (cases ls) auto

lemma chained_text_at:
  "chained off ls \<Longrightarrow> i < length ls \<Longrightarrow>
     take (length (line_text (ls ! i)))
       (drop (nat (offset (ls ! i) - off)) (joinLines (map line_text ls))) = line_text (ls ! i)"
proof (induction ls arbitrary: off i)
  case Nil
  then show ?case by simp
next
  case (Cons l rest)
  show ?case
  proof (cases i)
    case 0
    with Cons.prems show ?thesis by (cases rest) simp_all
  next
    case (Suc j)
    with Cons.prems have j: "j < length rest" and ne: "rest \<noteq> []" by auto
    let ?off' = "off + int (length (line_text l)) + 1"
    from Cons.prems have ch: "chained ?off' rest" by simp
    from ch j have lower: "?off' \<le> offset (rest ! j)" by (rule chained_lower)
    then have split: "nat (offset (rest ! j) - off)
        = length (line_text l) + 1 + nat (offset (rest ! j) - ?off')"
      by simp
    from ne have jn: "joinLines (map line_text (l # rest))
        = line_text l @ LF # joinLines (map line_text rest)"
      by (simp add: joinLines_Cons)
    have "drop (nat (offset (rest ! j) - off)) (joinLines (map line_text (l # rest)))
        = drop (nat (offset (rest ! j) - ?off')) (joinLines (map line_text rest))"
      unfolding split jn by simp
    with Cons.IH [OF ch j] Suc show ?thesis by simp
  qed
qed

lemma js_substr_take_drop:
  "0 \<le> start \<Longrightarrow> js_substr s start (int n) = take n (drop (nat start) s)"
  by (auto simp: js_substr_def Let_def min_def)

lemma getText_line:
  assumes inv: "docInvariant d" and i: "i < length (lines d)"
  shows "getText d (Some (line_range (lines d ! i))) = line_text (lines d ! i)"
proof -
  let ?l = "lines d ! i"
  from inv have ch: "chained 0 (lines d)" by (rule docInvariant_chained)
  from inv i have num: "lineNumber ?l = i" by (rule docInvariant_lineNumber)
  from ch i have lower: "0 \<le> offset ?l" by (rule chained_lower)
  have r: "line_range ?l = \<lparr>range_start = \<lparr>line = i, character = 0\<rparr>,
      range_end = \<lparr>line = i, character = length (line_text ?l)\<rparr>\<rparr>"
    by (simp add: line_range_def Range_new_def isAfter_def num)
  have "getText d (Some (line_range ?l))
      = js_substr (contents d) (offset ?l) (int (length (line_text ?l)))"
    using i by (simp add: r getText_def convertToOffset_def)
  also have "\<dots> = take (length (line_text ?l)) (drop (nat (offset ?l)) (contents d))"
    using lower by (rule js_substr_take_drop)
  also have "\<dots> = line_text ?l"
    using chained_text_at [OF ch i] docInvariant_join [OF inv] by simp
  finally show ?thesis .
qed

text \<open>
  C5. After any history of \<^verbatim>\<open>addLines\<close> and \<^verbatim>\<open>editLines\<close> calls on a new document, the
  first line, if there is one, starts at offset 0; every line but the last is followed
  by a line that starts at its own start plus the length of its text plus 1; line i
  carries the index i; no line holds a line feed, and the lines joined by line feeds are
  the content; the text of every line is what the content holds at the range of that
  line. Once the index is not empty it is the split of the content.
\<close>

theorem line_invariant:
  assumes "d = applyMutations (HistoryDocument_new fileName) ms"
  shows "(lines d \<noteq> [] \<longrightarrow> offset (lines d ! 0) = 0) \<and>
         (\<forall>i. Suc i < length (lines d) \<longrightarrow>
            offset (lines d ! i) + int (length (line_text (lines d ! i))) + 1
              = offset (lines d ! Suc i)) \<and>
         (\<forall>i. i < length (lines d) \<longrightarrow> lineNumber (lines d ! i) = i) \<and>
         (\<forall>l \<in> set (lines d). LF \<notin> set (line_text l)) \<and>
         joinLines (map line_text (lines d)) = contents d \<and>
         (\<forall>i. i < length (lines d) \<longrightarrow>
            getText d (Some (line_range (lines d ! i))) = line_text (lines d ! i)) \<and>
         (lines d \<noteq> [] \<longrightarrow> map line_text (lines d) = splitLines (contents d))"
proof -
  from assms have inv: "docInvariant d" by (simp add: docInvariant_reachable)
  then have ch: "chained 0 (lines d)" by (rule docInvariant_chained)
  have "lines d \<noteq> [] \<longrightarrow> offset (lines d ! 0) = 0"
    using chained_hd [OF ch] by simp
  moreover have "\<forall>i. Suc i < length (lines d) \<longrightarrow>
      offset (lines d ! i) + int (length (line_text (lines d ! i))) + 1 = offset (lines d ! Suc i)"
    using chained_nth [OF ch] by simp
  moreover have "\<forall>i. i < length (lines d) \<longrightarrow> lineNumber (lines d ! i) = i"
    using docInvariant_lineNumber [OF inv] by simp
  moreover have "\<forall>l \<in> set (lines d). LF \<notin> set (line_text l)"
    using docInvariant_no_LF [OF inv] by blast
  moreover have "joinLines (map line_text (lines d)) = contents d"
    using inv by (rule docInvariant_join)
  moreover have "\<forall>i. i < length (lines d) \<longrightarrow>
      getText d (Some (line_range (lines d ! i))) = line_text (lines d ! i)"
    using getText_line [OF inv] by simp
  moreover have "lines d \<noteq> [] \<longrightarrow> map line_text (lines d) = splitLines (contents d)"
    using inv by (auto simp: docInvariant_def createLines_def createLinesFrom_text)
  ultimately show ?thesis by blast
qed

theorem line_invariant_witness:
  "document_a_b =
     applyMutations (HistoryDocument_new ''History.py'') [AddLines ''a'', AddLines ''b''] \<and>
   lines document_a_b \<noteq> [] \<and> offset (lines document_a_b ! 0) = 0 \<and>
   Suc 0 < length (lines document_a_b) \<and>
   offset (lines document_a_b ! 0) + int (length (line_text (lines document_a_b ! 0))) + 1
     = offset (lines document_a_b ! Suc 0) \<and>
   lineNumber (lines document_a_b ! Suc 0) = Suc 0 \<and>
   lines document_a_b ! Suc 0 \<in> set (lines document_a_b) \<and>
   LF \<notin> set (line_text (lines document_a_b ! Suc 0)) \<and>
   getText document_a_b (Some (line_range (lines document_a_b ! Suc 0)))
     = line_text (lines document_a_b ! Suc 0) \<and>
   map line_text (lines document_a_b) = splitLines (contents document_a_b)"
proof -
  note h = document_a_b_history
  note t = line_invariant [OF h]
  have ne: "lines document_a_b \<noteq> []" and two: "Suc 0 < length (lines document_a_b)"
    and mem: "lines document_a_b ! Suc 0 \<in> set (lines document_a_b)"
    by (simp_all add: document_a_b_eq)
  from t ne have a: "offset (lines document_a_b ! 0) = 0" by blast
  from t two have b: "offset (lines document_a_b ! 0)
      + int (length (line_text (lines document_a_b ! 0))) + 1 = offset (lines document_a_b ! Suc 0)"
    by blast
  from t two have c: "lineNumber (lines document_a_b ! Suc 0) = Suc 0" by blast
  from t mem have e: "LF \<notin> set (line_text (lines document_a_b ! Suc 0))" by blast
  from t two have g: "getText document_a_b (Some (line_range (lines document_a_b ! Suc 0)))
      = line_text (lines document_a_b ! Suc 0)"
    by simp
  from t ne have f: "map line_text (lines document_a_b) = splitLines (contents document_a_b)"
    by blast
  show ?thesis
    by (intro conjI h ne a two b c mem e g f)
qed

section \<open>The version counter\<close>

lemma version_applyMutation: "version (applyMutation d m) = version d + 1"
  by (cases m)
     (simp_all add: addLines_def editLines_def Let_def split: sum.splits list.splits)

lemma version_applyMutations: "version (applyMutations d ms) = version d + int (length ms)"
  unfolding applyMutations_def
  by (induction ms arbitrary: d) (simp_all add: version_applyMutation)

text \<open>
  C4. An \<^verbatim>\<open>editLines\<close> call with an empty batch of changes changes nothing in the text
  and returns no change record, and yet it increments the version.
\<close>

theorem version_empty_batch_counterexample:
  "version (fst (editLines (HistoryDocument_new ''History.py'') []))
     \<noteq> version (HistoryDocument_new ''History.py'') \<and>
   contents (fst (editLines (HistoryDocument_new ''History.py'') [])) = [] \<and>
   snd (editLines (HistoryDocument_new ''History.py'') []) = Inr []"
  by (simp add: HistoryDocument_new_def editLines_def)

text \<open>
  C4, as amended. The version of a new document is 0, and every call of \<^verbatim>\<open>addLines\<close>
  and every call of \<^verbatim>\<open>editLines\<close> increments it by exactly 1, whatever the call does
  besides: also when the batch of changes is empty and when the call raises. After a
  history of n calls the version is n.
\<close>

theorem version_counts_calls:
  "version (HistoryDocument_new fileName) = 0 \<and>
   version (fst (addLines d code)) = version d + 1 \<and>
   version (fst (editLines d editorChanges)) = version d + 1 \<and>
   version (applyMutations (HistoryDocument_new fileName) ms) = int (length ms)"
  by (simp add: version_applyMutations)
     (simp add: HistoryDocument_new_def addLines_def editLines_def Let_def
        split: sum.splits list.splits)

section \<open>The first-edit flag\<close>

lemma firstEdit_addLines: "firstEdit (fst (addLines d code)) = firstEdit d"
  by (simp add: addLines_def Let_def split: sum.splits)

lemma firstEdit_editLines_Nil: "firstEdit (fst (editLines d [])) = firstEdit d"
  by (simp add: editLines_def)

lemma firstEdit_editLines_Cons: "\<not> firstEdit (fst (editLines d (c # rest)))"
  by (simp add: editLines_def Let_def split: sum.splits)

lemma firstEdit_stays_cleared: "\<not> firstEdit d \<Longrightarrow> \<not> firstEdit (applyMutation d m)"
proof (cases m)
  case (AddLines code)
  assume "\<not> firstEdit d"
  with AddLines show ?thesis by (simp add: firstEdit_addLines)
next
  case (EditLines editorChanges)
  assume "\<not> firstEdit d"
  with EditLines show ?thesis
    by (cases editorChanges) (simp_all add: firstEdit_editLines_Nil firstEdit_editLines_Cons)
qed

lemma firstEdit_stays_cleared_all: "\<not> firstEdit d \<Longrightarrow> \<not> firstEdit (applyMutations d ms)"
  unfolding applyMutations_def
  by (induction ms arbitrary: d) (simp_all add: firstEdit_stays_cleared)

text \<open>
  C3. An append does not consume the flag: after a first \<^verbatim>\<open>addLines\<close> it is still set,
  and the \<^verbatim>\<open>editLines\<close> call that follows takes the first-edit path (it appends a line
  feed and the typed text at the end and moves the edit offset by 1).
\<close>

theorem first_edit_flag_counterexample:
  "firstEdit (fst (addLines (HistoryDocument_new ''History.py'') ''a'')) \<and>
   contents document_edited = ''a'' @ [LF] @ ''x'' \<and>
   editOffset document_edited
     = editOffset (fst (addLines (HistoryDocument_new ''History.py'') ''a'')) + 1"
  by (simp add: document_edited_eq)
     (simp add: addLines_def HistoryDocument_new_def Let_def
        computePosition_def computeLine_empty Position_new_def removeCR_def CR_def)

text \<open>
  C3, as amended. The flag belongs to \<^verbatim>\<open>editLines\<close> alone. \<^verbatim>\<open>addLines\<close> never changes
  it, and neither does \<^verbatim>\<open>editLines\<close> with an empty batch; an \<^verbatim>\<open>editLines\<close> call with a
  change clears it; once cleared it stays cleared through every later call, so the
  first-edit path of \<^verbatim>\<open>editLines\<close> is taken at most once.
\<close>

theorem first_edit_flag:
  "firstEdit (fst (addLines d code)) = firstEdit d \<and>
   firstEdit (fst (editLines d [])) = firstEdit d \<and>
   \<not> firstEdit (fst (editLines d (c # rest))) \<and>
   (\<not> firstEdit d \<longrightarrow> \<not> firstEdit (applyMutations d ms))"
  by (simp add: firstEdit_addLines firstEdit_editLines_Nil firstEdit_editLines_Cons
      firstEdit_stays_cleared_all)

theorem first_edit_flag_witness:
  "\<not> firstEdit document_edited \<and>
   \<not> firstEdit (applyMutations document_edited
        [AddLines ''b'', EditLines [change 1 1 1 2 1 ''y'']])"
  using first_edit_flag [of document_edited "''b''" "change 1 1 1 2 1 ''y''" "[]"
      "[AddLines ''b'', EditLines [change 1 1 1 2 1 ''y'']]"]
  by (simp add: document_edited_eq)

section \<open>Reading text\<close>

lemma js_substr_part: "\<exists>pre suf. s = pre @ js_substr s start len @ suf"
proof (cases "js_substr s start len = []")
  case True
  then have "s = [] @ js_substr s start len @ s" by simp
  then show ?thesis by blast
next
  case False
  then obtain n m where "js_substr s start len = take n (drop m s)"
    by (auto simp: js_substr_def Let_def split: if_splits)
  moreover have "s = take m s @ take n (drop m s) @ drop n (drop m s)"
    by (simp only: append_take_drop_id)
  ultimately have "s = take m s @ js_substr s start len @ drop n (drop m s)" by simp
  then show ?thesis by blast
qed

text \<open>
  C10. \<^verbatim>\<open>convertToOffset\<close> has no failing branch. For a position whose line is not a line
  of the document it returns the length of the content. \<^verbatim>\<open>getText\<close> of any range is
  therefore a part of the content (possibly empty), and without a range it is the
  content.
\<close>

theorem convertToOffset_clamps:
  "(length (lines d) \<le> line pos \<longrightarrow> convertToOffset d pos = int (length (contents d))) \<and>
   (\<exists>pre suf. contents d = pre @ getText d (Some r) @ suf) \<and>
   getText d None = contents d"
  using js_substr_part [of "contents d"]
  by (simp add: convertToOffset_def getText_def Let_def)

theorem convertToOffset_clamps_witness:
  "length (lines document_a_b) \<le> line \<lparr>line = 5, character = 7\<rparr> \<and>
   convertToOffset document_a_b \<lparr>line = 5, character = 7\<rparr> = 3 \<and>
   getText document_a_b
     (Some \<lparr>range_start = \<lparr>line = 0, character = 1\<rparr>,
            range_end = \<lparr>line = 5, character = 7\<rparr>\<rparr>) = [LF] @ ''b''"
proof -
  note t = convertToOffset_clamps [of document_a_b "\<lparr>line = 5, character = 7\<rparr>"
      "\<lparr>range_start = \<lparr>line = 0, character = 1\<rparr>, range_end = \<lparr>line = 5, character = 7\<rparr>\<rparr>"]
  have ls: "length (lines document_a_b) = 2" and len: "length (contents document_a_b) = 3"
    by (simp_all add: document_a_b_eq)
  from t ls len have "convertToOffset document_a_b \<lparr>line = 5, character = 7\<rparr> = 3" by simp
  moreover have "getText document_a_b
     (Some \<lparr>range_start = \<lparr>line = 0, character = 1\<rparr>,
            range_end = \<lparr>line = 5, character = 7\<rparr>\<rparr>) = [LF] @ ''b''"
    by (simp add: document_a_b_eq getText_def convertToOffset_def js_substr_def)
  ultimately show ?thesis using ls by simp
qed

section \<open>The first mutation of a new document\<close>

lemma addLines_new:
  "addLines (HistoryDocument_new fileName) code =
     (\<lparr>uri = fileName, version = 1,
       lines = createLinesFrom (splitLines (removeCR code)) 0 None,
       contents = removeCR code, editOffset = int (length (removeCR code)), firstEdit = True\<rparr>,
      Inr [\<lparr>ev_range = \<lparr>range_start = \<lparr>line = 0, character = 0\<rparr>,
                        range_end = \<lparr>line = 0, character = 0\<rparr>\<rparr>,
            ev_rangeOffset = 0, ev_rangeLength = 0, ev_text = removeCR code\<rparr>])"
  by (simp add: addLines_def HistoryDocument_new_def Let_def computePosition_def
      computeLine_empty Position_new_def js_substr_def js_substr_from_def createLines_def
      createSerializableRange_def)

lemma editLines_new_document:
  "fst (editLines (HistoryDocument_new fileName) (c # rest)) =
     \<lparr>uri = fileName, version = 1,
      lines = createLinesFrom (splitLines (LF # removeCR (m_text c))) 0 None,
      contents = LF # removeCR (m_text c), editOffset = 1, firstEdit = False\<rparr>"
  by (simp add: editLines_def HistoryDocument_new_def Let_def createLines_def)

lemma computePosition_zero:
  assumes inv: "docInvariant d"
  shows "computePosition d 0 = Inr \<lparr>line = 0, character = 0\<rparr>"
proof (cases "lines d = []")
  case True
  then show ?thesis
    by (simp add: computePosition_def computeLine_empty Position_new_def)
next
  case False
  from inv have "chained 0 (lines d)" by (rule docInvariant_chained)
  from this False have z: "offset (lines d ! 0) = 0" by (rule chained_hd)
  from False have "computePosition d (convertToOffset d \<lparr>line = 0, character = 0\<rparr>)
      = Inr \<lparr>line = 0, character = 0\<rparr>"
    by (intro position_to_offset_to_position [OF inv]) simp_all
  with False z show ?thesis by (simp add: convertToOffset_def)
qed

lemma createSerializableRange_eq:
  "createSerializableRange s e = \<lparr>range_start = s, range_end = e\<rparr>"
  by (simp add: createSerializableRange_def)

lemma editLines_new_result:
  "\<exists>p. snd (editLines (HistoryDocument_new fileName) (c # rest)) =
          Inr [\<lparr>ev_range = \<lparr>range_start = \<lparr>line = 0, character = 0\<rparr>, range_end = p\<rparr>,
                ev_rangeOffset = 0, ev_rangeLength = m_rangeLength c,
                ev_text = LF # removeCR (m_text c)\<rparr>] \<and>
        convertToOffset (fst (editLines (HistoryDocument_new fileName) (c # rest))) p
          = 1 + int (length (removeCR (m_text c)))"
proof -
  let ?d = "fst (editLines (HistoryDocument_new fileName) (c # rest))"
  let ?n = "1 + int (length (removeCR (m_text c)))"
  have inv: "docInvariant ?d"
    by (rule docInvariant_editLines) (rule docInvariant_new)
  have len: "int (length (contents ?d)) = ?n"
    by (simp add: editLines_new_document)
  have p1: "computePosition ?d 0 = Inr \<lparr>line = 0, character = 0\<rparr>"
    using inv by (rule computePosition_zero)
  obtain p2 where p2: "computePosition ?d ?n = Inr p2" and rt: "convertToOffset ?d p2 = ?n"
    using offset_to_position_to_offset [OF inv, of ?n] len by auto
  from p1 p2 have "snd (editLines (HistoryDocument_new fileName) (c # rest)) =
      Inr [\<lparr>ev_range = \<lparr>range_start = \<lparr>line = 0, character = 0\<rparr>, range_end = p2\<rparr>,
            ev_rangeOffset = 0, ev_rangeLength = m_rangeLength c,
            ev_text = LF # removeCR (m_text c)\<rparr>]"
    by (simp add: editLines_new_document)
       (simp add: editLines_def HistoryDocument_new_def Let_def createLines_def
          createSerializableRange_eq)
  with rt show ?thesis by blast
qed

text \<open>
  C1. On a new document a first edit and a first append of the same text differ: the
  edit leaves a line feed in front of the text and moves the edit offset by 1, the append
  leaves the text alone and moves the edit offset by its length.
\<close>

theorem first_edit_counterexample:
  "contents (fst (editLines (HistoryDocument_new ''History.py'') [change 1 1 1 1 0 ''xy'']))
     = [LF] @ ''xy'' \<and>
   contents (fst (addLines (HistoryDocument_new ''History.py'') ''xy'')) = ''xy'' \<and>
   editOffset (fst (editLines (HistoryDocument_new ''History.py'') [change 1 1 1 1 0 ''xy''])) = 1 \<and>
   editOffset (fst (addLines (HistoryDocument_new ''History.py'') ''xy'')) = 2"
  by (simp add: addLines_new editLines_new_document change_def removeCR_def CR_def)

text \<open>
  C1, as amended. On a new document, \<^verbatim>\<open>addLines\<close> leaves the text (without its carriage
  returns) as the content, with no separator, keeps the first-edit flag, moves the edit
  offset by the length of that text, and returns one insertion of the text at offset 0.
  \<^verbatim>\<open>editLines\<close> with a first change of the same text leaves that content behind one line
  feed, clears the first-edit flag, moves the edit offset by exactly 1, and returns one
  change record at offset 0 whose text is the line feed and the text, whose length is
  the one the editor gave, and whose range runs from the start to the end of the new
  content. Both set the version to 1.
\<close>

theorem first_edit_versus_first_append:
  "addLines (HistoryDocument_new fileName) code =
     (\<lparr>uri = fileName, version = 1,
       lines = createLinesFrom (splitLines (removeCR code)) 0 None,
       contents = removeCR code, editOffset = int (length (removeCR code)), firstEdit = True\<rparr>,
      Inr [\<lparr>ev_range = \<lparr>range_start = \<lparr>line = 0, character = 0\<rparr>,
                        range_end = \<lparr>line = 0, character = 0\<rparr>\<rparr>,
            ev_rangeOffset = 0, ev_rangeLength = 0, ev_text = removeCR code\<rparr>]) \<and>
   fst (editLines (HistoryDocument_new fileName) (c # rest)) =
     \<lparr>uri = fileName, version = 1,
      lines = createLinesFrom (splitLines (LF # removeCR (m_text c))) 0 None,
      contents = LF # removeCR (m_text c), editOffset = 1, firstEdit = False\<rparr> \<and>
   (\<exists>p. snd (editLines (HistoryDocument_new fileName) (c # rest)) =
          Inr [\<lparr>ev_range = \<lparr>range_start = \<lparr>line = 0, character = 0\<rparr>, range_end = p\<rparr>,
                ev_rangeOffset = 0, ev_rangeLength = m_rangeLength c,
                ev_text = LF # removeCR (m_text c)\<rparr>] \<and>
        convertToOffset (fst (editLines (HistoryDocument_new fileName) (c # rest))) p
          = 1 + int (length (removeCR (m_text c))))"
  using addLines_new [of fileName code] editLines_new_document [of fileName c rest]
    editLines_new_result [of fileName c rest]
  by (intro conjI)

section \<open>The content holds no carriage return\<close>

text \<open>
  Both mutations strip the carriage returns from what they insert, so the content never
  holds one and the split at line feeds is the split at line breaks.
\<close>

lemma notin_js_substr: "x \<notin> set s \<Longrightarrow> x \<notin> set (js_substr s start len)"
  by (auto simp: js_substr_def Let_def dest: in_set_takeD in_set_dropD)

lemma notin_js_substr_from: "x \<notin> set s \<Longrightarrow> x \<notin> set (js_substr_from s start)"
  by (auto simp: js_substr_from_def Let_def dest: in_set_takeD in_set_dropD)

lemma removeCR_no_CR: "CR \<notin> set (removeCR s)"
  by (simp add: removeCR_def)

lemma LF_not_CR: "LF \<noteq> CR" "CR \<noteq> LF"
  by (simp_all add: LF_def CR_def)

lemma no_CR_addLines: "CR \<notin> set (contents d) \<Longrightarrow> CR \<notin> set (contents (fst (addLines d code)))"
  by (auto simp: addLines_def Let_def notin_js_substr notin_js_substr_from removeCR_no_CR
      LF_not_CR split: sum.splits)

lemma no_CR_editLines:
  "CR \<notin> set (contents d) \<Longrightarrow> CR \<notin> set (contents (fst (editLines d editorChanges)))"
proof (cases editorChanges)
  case Nil
  assume "CR \<notin> set (contents d)"
  with Nil show ?thesis by (simp add: editLines_def)
next
  case (Cons c rest)
  assume "CR \<notin> set (contents d)"
  with Cons show ?thesis
    by (auto simp: editLines_def Let_def notin_js_substr notin_js_substr_from removeCR_no_CR
        LF_not_CR split: sum.splits)
qed

lemma no_CR_applyMutations:
  "CR \<notin> set (contents d) \<Longrightarrow> CR \<notin> set (contents (applyMutations d ms))"
  unfolding applyMutations_def
proof (induction ms arbitrary: d)
  case Nil
  then show ?case by simp
next
  case (Cons m ms)
  from Cons.prems have "CR \<notin> set (contents (applyMutation d m))"
    by (cases m) (simp_all add: no_CR_addLines no_CR_editLines)
  then show ?case using Cons.IH by simp
qed

lemma contents_no_CR: "CR \<notin> set (contents (applyMutations (HistoryDocument_new fileName) ms))"
  by (rule no_CR_applyMutations) (simp add: HistoryDocument_new_def)

section \<open>Normalizing completion results\<close>

lemma map_convertToMonacoCompletionItem: "map convertToMonacoCompletionItem xs = xs"
  by (induction xs) (simp_all add: convertToMonacoCompletionItem_def)

lemma convertToMonacoCompletionList_cases:
  "convertToMonacoCompletionList Null = \<lparr>suggestions = [], incomplete = True\<rparr>"
  "convertToMonacoCompletionList (CompletionList b xs) = \<lparr>suggestions = xs, incomplete = b\<rparr>"
  "convertToMonacoCompletionList (CompletionItems xs) = \<lparr>suggestions = xs, incomplete = False\<rparr>"
  by (simp_all add: convertToMonacoCompletionList_def hasOwnProperty_isIncomplete_def
      map_convertToMonacoCompletionItem)

text \<open>
  C9. A bare array of items becomes the list of the same items, marked complete; a
  completion list with the flag b and the items xs becomes the list of xs with the flag
  b. Which of the two a result is shows in its having the field \<^verbatim>\<open>isIncomplete\<close>, and the
  items pass through unchanged.
\<close>

theorem result_normalization:
  "convertToMonacoCompletionList (CompletionItems [A, B])
     = \<lparr>suggestions = [A, B], incomplete = False\<rparr> \<and>
   convertToMonacoCompletionList (CompletionList True [A])
     = \<lparr>suggestions = [A], incomplete = True\<rparr> \<and>
   convertToMonacoCompletionList (CompletionItems xs) = \<lparr>suggestions = xs, incomplete = False\<rparr> \<and>
   convertToMonacoCompletionList (CompletionList b xs) = \<lparr>suggestions = xs, incomplete = b\<rparr> \<and>
   hasOwnProperty_isIncomplete (CompletionList b xs) \<and>
   \<not> hasOwnProperty_isIncomplete (CompletionItems xs) \<and>
   map convertToMonacoCompletionItem xs = xs"
  by (simp add: convertToMonacoCompletionList_def hasOwnProperty_isIncomplete_def
      map_convertToMonacoCompletionItem convertToMonacoCompletionItem_def)

section \<open>Cancelling completion requests\<close>

lemma cancel_dispose_idem: "dispose (cancel (dispose (cancel s))) = dispose (cancel s)"
  by (simp add: dispose_def cancel_def)

lemma handleCompletionItemsCancel_unknown:
  "cancellationSources p ''__proto__'' = None \<Longrightarrow> cancellationSources p i = None \<Longrightarrow>
   i \<notin> set Object_prototype_names \<Longrightarrow> handleCompletionItemsCancel viaSource p i = (p, Inr ())"
  by (simp add: handleCompletionItemsCancel_def)

lemma handleCompletionItemsCancel_inherited:
  "cancellationSources p ''__proto__'' = None \<Longrightarrow> cancellationSources p i = None \<Longrightarrow>
   i \<in> set Object_prototype_names \<Longrightarrow> handleCompletionItemsCancel viaSource p i = (p, Inl TypeError)"
  by (simp add: handleCompletionItemsCancel_def)

lemma handleCompletionItemsCancel_known:
  "cancellationSources p i = Some s \<Longrightarrow>
     handleCompletionItemsCancel viaSource p i =
       (p\<lparr>cancellationSources :=
            (cancellationSources p)
              (i \<mapsto> s\<lparr>isCancellationRequested := True, isDisposed := True\<rparr>)\<rparr>,
        Inr ())"
  by (simp add: handleCompletionItemsCancel_def dispose_def cancel_def)

lemma handleCompletionItemsCancel_twice:
  assumes "cancellationSources p ''__proto__'' = None"
  shows "fst (handleCompletionItemsCancel viaSource
                (fst (handleCompletionItemsCancel viaSource p i)) i)
           = fst (handleCompletionItemsCancel viaSource p i)"
proof (cases "cancellationSources p i")
  case None
  with assms show ?thesis
    by (cases "i \<in> set Object_prototype_names")
       (simp_all add: handleCompletionItemsCancel_unknown handleCompletionItemsCancel_inherited)
next
  case (Some s)
  then show ?thesis
    by (simp add: handleCompletionItemsCancel_def cancel_dispose_idem)
qed

lemma handleCompletionItemsCancel_dom:
  assumes "cancellationSources p ''__proto__'' = None"
  shows "dom (cancellationSources (fst (handleCompletionItemsCancel viaSource p i)))
           = dom (cancellationSources p)"
  using assms
  by (auto simp: handleCompletionItemsCancel_def split: option.splits if_splits)

lemma settled_sources:
  "cancellationSources (handleCompletionItemsRequest_settled p request outcome)
     = cancellationSources p"
  by (simp add: handleCompletionItemsRequest_settled_def postResponse_def split: sum.splits)

lemma settled_failure:
  "posted (handleCompletionItemsRequest_settled p request (Inl e)) =
     posted p @ [\<lparr>resp_list = \<lparr>suggestions = [], incomplete = True\<rparr>, resp_id = req_id request\<rparr>]"
  by (simp add: handleCompletionItemsRequest_settled_def postResponse_def)

lemma cancel_posted:
  "cancellationSources p ''__proto__'' = None \<Longrightarrow>
     posted (fst (handleCompletionItemsCancel viaSource p i)) = posted p"
  by (simp add: handleCompletionItemsCancel_def split: option.splits)

lemma unregistered_id_new_provider:
  "cancellationSources (CompletionProvider_new :: 'i CompletionProvider) i = None"
  by (simp add: CompletionProvider_new_def)

text \<open>
  An id that was never registered is not always unknown to the table: the id
  \<^verbatim>\<open>constructor\<close> finds the inherited property of that name, and the cancel raises.
\<close>

lemma cancel_inherited_name_raises:
  "handleCompletionItemsCancel viaSource (CompletionProvider_new :: 'i CompletionProvider)
     ''constructor'' = (CompletionProvider_new, Inl TypeError)"
  by (rule handleCompletionItemsCancel_inherited)
     (simp_all add: unregistered_id_new_provider Object_prototype_names_def)

text \<open>
  C7. The table of cancellation sources is never shrunk: the entry of a request is still
  there after the request was cancelled, and still there after it was answered.
\<close>

theorem cancellation_entry_survives:
  "cancellationSources
     (fst (handleCompletionItemsCancel viaSource_raises
        (handleCompletionItemsRequest_register
           (CompletionProvider_new :: string CompletionProvider) request_1) ''1'')) ''1''
     = Some \<lparr>isCancellationRequested = True, isDisposed = True\<rparr> \<and>
   cancellationSources
     (handleCompletionItemsRequest
        (CompletionProvider_new :: string CompletionProvider) request_1
        (Inr True) (\<lambda>docPos context. Inr (CompletionItems [''A'']))) ''1''
     = Some \<lparr>isCancellationRequested = False, isDisposed = False\<rparr>"
  by (simp add: handleCompletionItemsCancel_def handleCompletionItemsRequest_register_def
      handleCompletionItemsRequest_def handleCompletionItemsRequest_settled_def
      postResponse_def CompletionProvider_new_def request_1_def
      CancellationTokenSource_new_def cancel_def dispose_def Let_def split: sum.splits)

text \<open>
  C7, as amended. In a table that no request with the id \<^verbatim>\<open>__proto__\<close> has touched:
  cancelling an id that has no entry and is not the name of a property that the table
  inherits changes nothing and raises nothing, also when repeated. Cancelling an id that
  has an entry marks its source cancelled and disposed and keeps the entry; a second
  cancel of the same id changes nothing more. No handler removes an entry: a cancel keeps
  the ids of the table, a request adds its id, and the answer to a request leaves the
  table as it is. A cancelled request whose completion fails is answered with the empty
  incomplete list.
\<close>

theorem cancellation_keeps_entries:
  assumes "cancellationSources p ''__proto__'' = None"
  shows
  "(cancellationSources p i = None \<and> i \<notin> set Object_prototype_names \<longrightarrow>
      handleCompletionItemsCancel viaSource p i = (p, Inr ()) \<and>
      handleCompletionItemsCancel viaSource
        (fst (handleCompletionItemsCancel viaSource p i)) i = (p, Inr ())) \<and>
   (\<forall>s. cancellationSources p i = Some s \<longrightarrow>
      handleCompletionItemsCancel viaSource p i =
        (p\<lparr>cancellationSources :=
             (cancellationSources p)
               (i \<mapsto> s\<lparr>isCancellationRequested := True, isDisposed := True\<rparr>)\<rparr>,
         Inr ())) \<and>
   fst (handleCompletionItemsCancel viaSource
          (fst (handleCompletionItemsCancel viaSource p i)) i)
     = fst (handleCompletionItemsCancel viaSource p i) \<and>
   dom (cancellationSources (fst (handleCompletionItemsCancel viaSource p i)))
     = dom (cancellationSources p) \<and>
   cancellationSources (handleCompletionItemsRequest_register p request) (req_id request)
     = Some CancellationTokenSource_new \<and>
   cancellationSources (handleCompletionItemsRequest_settled p request outcome)
     = cancellationSources p \<and>
   posted (handleCompletionItemsRequest_settled
             (fst (handleCompletionItemsCancel viaSource p (req_id request))) request (Inl e))
     = posted p @ [\<lparr>resp_list = \<lparr>suggestions = [], incomplete = True\<rparr>,
                    resp_id = req_id request\<rparr>]"
proof (intro conjI impI allI)
  assume u: "cancellationSources p i = None \<and> i \<notin> set Object_prototype_names"
  with assms show once: "handleCompletionItemsCancel viaSource p i = (p, Inr ())"
    by (simp add: handleCompletionItemsCancel_unknown)
  then show "handleCompletionItemsCancel viaSource
      (fst (handleCompletionItemsCancel viaSource p i)) i = (p, Inr ())"
    by simp
next
  fix s
  assume "cancellationSources p i = Some s"
  then show "handleCompletionItemsCancel viaSource p i =
      (p\<lparr>cancellationSources :=
           (cancellationSources p)
             (i \<mapsto> s\<lparr>isCancellationRequested := True, isDisposed := True\<rparr>)\<rparr>,
       Inr ())"
    by (rule handleCompletionItemsCancel_known)
next
  show "fst (handleCompletionItemsCancel viaSource
          (fst (handleCompletionItemsCancel viaSource p i)) i)
     = fst (handleCompletionItemsCancel viaSource p i)"
    using assms by (rule handleCompletionItemsCancel_twice)
next
  show "dom (cancellationSources (fst (handleCompletionItemsCancel viaSource p i)))
     = dom (cancellationSources p)"
    using assms by (rule handleCompletionItemsCancel_dom)
next
  show "cancellationSources (handleCompletionItemsRequest_register p request) (req_id request)
     = Some CancellationTokenSource_new"
    by (simp add: handleCompletionItemsRequest_register_def)
next
  show "cancellationSources (handleCompletionItemsRequest_settled p request outcome)
     = cancellationSources p"
    by (rule settled_sources)
next
  show "posted (handleCompletionItemsRequest_settled
             (fst (handleCompletionItemsCancel viaSource p (req_id request))) request (Inl e))
     = posted p @ [\<lparr>resp_list = \<lparr>suggestions = [], incomplete = True\<rparr>,
                    resp_id = req_id request\<rparr>]"
    using assms by (simp add: settled_failure cancel_posted)
qed

theorem cancellation_keeps_entries_witness:
  "cancellationSources (CompletionProvider_new :: string CompletionProvider) ''__proto__'' = None \<and>
   cancellationSources (CompletionProvider_new :: string CompletionProvider) ''1'' = None \<and>
   ''1'' \<notin> set Object_prototype_names \<and>
   handleCompletionItemsCancel viaSource_raises
       (CompletionProvider_new :: string CompletionProvider) ''1''
     = (CompletionProvider_new, Inr ()) \<and>
   cancellationSources
     (handleCompletionItemsRequest_register
        (CompletionProvider_new :: string CompletionProvider) request_1) ''__proto__'' = None \<and>
   cancellationSources
     (handleCompletionItemsRequest_register
        (CompletionProvider_new :: string CompletionProvider) request_1) ''1''
     = Some CancellationTokenSource_new \<and>
   cancellationSources
     (fst (handleCompletionItemsCancel viaSource_raises
        (handleCompletionItemsRequest_register
           (CompletionProvider_new :: string CompletionProvider) request_1) ''1'')) ''1''
     = Some \<lparr>isCancellationRequested = True, isDisposed = True\<rparr>"
proof -
  let ?p = "CompletionProvider_new :: string CompletionProvider"
  let ?q = "handleCompletionItemsRequest_register ?p request_1"
  have proto_p: "cancellationSources ?p ''__proto__'' = None"
    by (rule unregistered_id_new_provider)
  have none: "cancellationSources ?p ''1'' = None"
    by (rule unregistered_id_new_provider)
  have name: "''1'' \<notin> set Object_prototype_names"
    by (simp add: Object_prototype_names_def)
  have proto_q: "cancellationSources ?q ''__proto__'' = None"
    by (simp add: handleCompletionItemsRequest_register_def request_1_def
        unregistered_id_new_provider)
  have some: "cancellationSources ?q ''1'' = Some CancellationTokenSource_new"
    by (simp add: handleCompletionItemsRequest_register_def request_1_def)
  from none name
    cancellation_keeps_entries [OF proto_p, of "''1''" viaSource_raises request_1]
  have a: "handleCompletionItemsCancel viaSource_raises ?p ''1'' = (?p, Inr ())" by blast
  from some cancellation_keeps_entries [OF proto_q, of "''1''" viaSource_raises request_1]
  have "handleCompletionItemsCancel viaSource_raises ?q ''1'' =
      (?q\<lparr>cancellationSources :=
            (cancellationSources ?q)
              (''1'' \<mapsto> CancellationTokenSource_new
                 \<lparr>isCancellationRequested := True, isDisposed := True\<rparr>)\<rparr>,
       Inr ())"
    by blast
  then have b: "cancellationSources
      (fst (handleCompletionItemsCancel viaSource_raises ?q ''1'')) ''1''
      = Some \<lparr>isCancellationRequested = True, isDisposed = True\<rparr>"
    by (simp add: CancellationTokenSource_new_def)
  show ?thesis by (intro conjI proto_p none name a proto_q some b)
qed

lemma request_1_position:
  "convertToDocumentPosition document_edited (pos_lineNumber (req_position request_1))
     (pos_column (req_position request_1)) = Inr \<lparr>line = 1, character = 1\<rparr>"
  by (simp add: request_1_def document_edited_eq convertToDocumentPosition_def
      computePosition_def Position_new_def)
     (simp add: computeLine.simps Position_new_def)

text \<open>
  The provider never looks at the token itself: when the server answers a cancelled
  request all the same, that answer is what the provider posts.
\<close>

lemma cancelled_request_answered_by_server:
  "posted (handleCompletionItemsRequest_settled
             (fst (handleCompletionItemsCancel viaSource_raises
                (handleCompletionItemsRequest_register provider_with_document request_1) ''1''))
             request_1
             (provideCompletionItems
                (fst (handleCompletionItemsCancel viaSource_raises
                   (handleCompletionItemsRequest_register provider_with_document request_1)
                   ''1''))
                (Inr True) (\<lambda>docPos context. Inr (CompletionItems [''A'']))
                (req_position request_1) (req_context request_1)))
     = [\<lparr>resp_list = \<lparr>suggestions = [''A''], incomplete = False\<rparr>, resp_id = ''1''\<rparr>]"
  using request_1_position
  by (simp add: handleCompletionItemsRequest_settled_def postResponse_def
      handleCompletionItemsCancel_def handleCompletionItemsRequest_register_def
      provideCompletionItems_def provider_with_document_def CompletionProvider_new_def
      convertToMonacoCompletionList_cases request_1_def)

section \<open>One response for every completion request\<close>

lemma posted_handleCompletionItemsRequest:
  "posted (handleCompletionItemsRequest p request languageClient sendRequest) =
     posted p @
       [\<lparr>resp_list =
           (case provideCompletionItems (handleCompletionItemsRequest_register p request)
                   languageClient sendRequest (req_position request) (req_context request) of
              Inl e \<Rightarrow> \<lparr>suggestions = [], incomplete = True\<rparr>
            | Inr completions \<Rightarrow> completions),
         resp_id = req_id request\<rparr>]"
  by (simp add: handleCompletionItemsRequest_def handleCompletionItemsRequest_settled_def
      handleCompletionItemsRequest_register_def postResponse_def Let_def split: sum.splits)

lemma provideCompletionItems_register:
  "provideCompletionItems (handleCompletionItemsRequest_register p request) = provideCompletionItems p"
  by (simp add: provideCompletionItems_def handleCompletionItemsRequest_register_def fun_eq_iff
      split: sum.splits)

lemma provideCompletionItems_success:
  "languageClient = Inr True \<Longrightarrow> document p = Some d \<Longrightarrow>
   convertToDocumentPosition d (pos_lineNumber position) (pos_column position) = Inr docPos \<Longrightarrow>
   provideCompletionItems p languageClient sendRequest position context =
     (case sendRequest docPos context of
        Inl e \<Rightarrow> Inl e
      | Inr result \<Rightarrow> Inr (convertToMonacoCompletionList result))"
  by (simp add: provideCompletionItems_def)

lemma provideCompletionItems_startup_failed:
  "provideCompletionItems p (Inl e) sendRequest position context = Inl e"
  by (simp add: provideCompletionItems_def)

text \<open>
  C8. When the completion of a request has settled, the provider has posted exactly one
  more message, and it carries the id of the request. When the language client is
  there, the document exists, the position translates and the server answers with a
  result, the message carries the normalized result. When the completion fails, be it
  the start-up, the translation of the position or the request to the server (a
  cancelled request among them), the message carries the empty incomplete list.
\<close>

theorem one_response_per_request:
  "(\<exists>completions.
      posted (handleCompletionItemsRequest p request languageClient sendRequest) =
        posted p @ [\<lparr>resp_list = completions, resp_id = req_id request\<rparr>]) \<and>
   (\<forall>d docPos result.
      languageClient = Inr True \<and> document p = Some d \<and>
      convertToDocumentPosition d (pos_lineNumber (req_position request))
        (pos_column (req_position request)) = Inr docPos \<and>
      sendRequest docPos (req_context request) = Inr result \<longrightarrow>
      posted (handleCompletionItemsRequest p request languageClient sendRequest) =
        posted p @ [\<lparr>resp_list = convertToMonacoCompletionList result,
                      resp_id = req_id request\<rparr>]) \<and>
   (\<forall>e.
      provideCompletionItems (handleCompletionItemsRequest_register p request) languageClient
        sendRequest (req_position request) (req_context request) = Inl e \<longrightarrow>
      posted (handleCompletionItemsRequest p request languageClient sendRequest) =
        posted p @ [\<lparr>resp_list = \<lparr>suggestions = [], incomplete = True\<rparr>,
                      resp_id = req_id request\<rparr>]) \<and>
   (\<forall>d docPos e.
      languageClient = Inr True \<and> document p = Some d \<and>
      convertToDocumentPosition d (pos_lineNumber (req_position request))
        (pos_column (req_position request)) = Inr docPos \<and>
      sendRequest docPos (req_context request) = Inl e \<longrightarrow>
      posted (handleCompletionItemsRequest p request languageClient sendRequest) =
        posted p @ [\<lparr>resp_list = \<lparr>suggestions = [], incomplete = True\<rparr>,
                      resp_id = req_id request\<rparr>]) \<and>
   (\<forall>e.
      languageClient = Inl e \<longrightarrow>
      posted (handleCompletionItemsRequest p request languageClient sendRequest) =
        posted p @ [\<lparr>resp_list = \<lparr>suggestions = [], incomplete = True\<rparr>,
                      resp_id = req_id request\<rparr>])"
proof (intro conjI allI impI)
  show "\<exists>completions.
      posted (handleCompletionItemsRequest p request languageClient sendRequest) =
        posted p @ [\<lparr>resp_list = completions, resp_id = req_id request\<rparr>]"
    by (simp add: posted_handleCompletionItemsRequest)
next
  fix d docPos result
  assume "languageClient = Inr True \<and> document p = Some d \<and>
      convertToDocumentPosition d (pos_lineNumber (req_position request))
        (pos_column (req_position request)) = Inr docPos \<and>
      sendRequest docPos (req_context request) = Inr result"
  then show "posted (handleCompletionItemsRequest p request languageClient sendRequest) =
        posted p @ [\<lparr>resp_list = convertToMonacoCompletionList result,
                      resp_id = req_id request\<rparr>]"
    by (simp add: posted_handleCompletionItemsRequest provideCompletionItems_register
        provideCompletionItems_success [where d = d and docPos = docPos])
next
  fix e
  assume "provideCompletionItems (handleCompletionItemsRequest_register p request) languageClient
        sendRequest (req_position request) (req_context request) = Inl e"
  then show "posted (handleCompletionItemsRequest p request languageClient sendRequest) =
        posted p @ [\<lparr>resp_list = \<lparr>suggestions = [], incomplete = True\<rparr>,
                      resp_id = req_id request\<rparr>]"
    by (simp add: posted_handleCompletionItemsRequest)
next
  fix d docPos e
  assume "languageClient = Inr True \<and> document p = Some d \<and>
      convertToDocumentPosition d (pos_lineNumber (req_position request))
        (pos_column (req_position request)) = Inr docPos \<and>
      sendRequest docPos (req_context request) = Inl e"
  then show "posted (handleCompletionItemsRequest p request languageClient sendRequest) =
        posted p @ [\<lparr>resp_list = \<lparr>suggestions = [], incomplete = True\<rparr>,
                      resp_id = req_id request\<rparr>]"
    by (simp add: posted_handleCompletionItemsRequest provideCompletionItems_register
        provideCompletionItems_success [where d = d and docPos = docPos])
next
  fix e
  assume "languageClient = Inl e"
  then show "posted (handleCompletionItemsRequest p request languageClient sendRequest) =
        posted p @ [\<lparr>resp_list = \<lparr>suggestions = [], incomplete = True\<rparr>,
                      resp_id = req_id request\<rparr>]"
    by (simp add: posted_handleCompletionItemsRequest provideCompletionItems_register
        provideCompletionItems_startup_failed)
qed

theorem one_response_per_request_witness:
  "posted (handleCompletionItemsRequest provider_with_document request_1 (Inr True)
             (\<lambda>docPos context. Inr (CompletionList True [''A''])))
     = [\<lparr>resp_list = \<lparr>suggestions = [''A''], incomplete = True\<rparr>, resp_id = ''1''\<rparr>] \<and>
   posted (handleCompletionItemsRequest provider_with_document request_1 (Inr True)
             (\<lambda>docPos context. Inl RequestCancelled))
     = [\<lparr>resp_list = \<lparr>suggestions = [], incomplete = True\<rparr>, resp_id = ''1''\<rparr>] \<and>
   posted (handleCompletionItemsRequest provider_with_document request_1 (Inl StartupFailed)
             (\<lambda>docPos context. Inr (CompletionList True [''A''])))
     = [\<lparr>resp_list = \<lparr>suggestions = [], incomplete = True\<rparr>, resp_id = ''1''\<rparr>]"
proof -
  have doc: "document provider_with_document = Some document_edited"
    and none: "posted provider_with_document = []"
    by (simp_all add: provider_with_document_def CompletionProvider_new_def)
  have i: "req_id request_1 = ''1''" by (simp add: request_1_def)
  note pos = request_1_position
  have "posted (handleCompletionItemsRequest provider_with_document request_1 (Inr True)
             (\<lambda>docPos context. Inr (CompletionList True [''A''])))
     = posted provider_with_document @
         [\<lparr>resp_list = convertToMonacoCompletionList (CompletionList True [''A'']),
           resp_id = req_id request_1\<rparr>]"
    using one_response_per_request [of provider_with_document request_1 "Inr True"
        "\<lambda>docPos context. Inr (CompletionList True [''A''])"] doc pos
    by blast
  then have a: "posted (handleCompletionItemsRequest provider_with_document request_1 (Inr True)
             (\<lambda>docPos context. Inr (CompletionList True [''A''])))
     = [\<lparr>resp_list = \<lparr>suggestions = [''A''], incomplete = True\<rparr>, resp_id = ''1''\<rparr>]"
    by (simp add: none i convertToMonacoCompletionList_cases)
  have "posted (handleCompletionItemsRequest provider_with_document request_1 (Inr True)
             (\<lambda>docPos context. Inl RequestCancelled))
     = posted provider_with_document @
         [\<lparr>resp_list = \<lparr>suggestions = [], incomplete = True\<rparr>, resp_id = req_id request_1\<rparr>]"
    using one_response_per_request [of provider_with_document request_1 "Inr True"
        "\<lambda>docPos context. Inl RequestCancelled"] doc pos
    by blast
  then have b: "posted (handleCompletionItemsRequest provider_with_document request_1 (Inr True)
             (\<lambda>docPos context. Inl RequestCancelled))
     = [\<lparr>resp_list = \<lparr>suggestions = [], incomplete = True\<rparr>, resp_id = ''1''\<rparr>]"
    by (simp add: none i)
  have "posted (handleCompletionItemsRequest provider_with_document request_1 (Inl StartupFailed)
             (\<lambda>docPos context. Inr (CompletionList True [''A''])))
     = posted provider_with_document @
         [\<lparr>resp_list = \<lparr>suggestions = [], incomplete = True\<rparr>, resp_id = req_id request_1\<rparr>]"
    using one_response_per_request [of provider_with_document request_1 "Inl StartupFailed"
        "\<lambda>docPos context. Inr (CompletionList True [''A''])"]
    by blast
  then have c: "posted (handleCompletionItemsRequest provider_with_document request_1
             (Inl StartupFailed) (\<lambda>docPos context. Inr (CompletionList True [''A''])))
     = [\<lparr>resp_list = \<lparr>suggestions = [], incomplete = True\<rparr>, resp_id = ''1''\<rparr>]"
    by (simp add: none i)
  show ?thesis by (intro conjI a b c)
qed

end
